theory Spec2Isabelle
  imports Complex_Main
begin

section \<open>Python values\<close>

text \<open>
  The report formatter \<open>generate_simulation_csv\<close> of \<open>Battery_Simulator.py\<close> is
  embedded as a function of its five arguments. Exceptions are values: a call returns
  \<open>Inl e\<close> when the Python raises \<open>e\<close> and \<open>Inr r\<close> when it returns \<open>r\<close>.
\<close>

datatype error = ValueError | OverflowError | ZeroDivisionError | KeyError string

text \<open>
  A Python \<open>float\<close> is an IEEE binary64 value. A finite one is represented by the
  rational number it denotes (the sign of a zero is not represented: \<open>0.0\<close> and
  \<open>-0.0\<close> are equal for every comparison the program makes). The readings that
  the program is given are finite floats, type \<open>rat\<close>; the results of arithmetic are
  of type \<open>pyfloat\<close>, since a product can overflow.
\<close>

datatype pyfloat = Finite rat | Infinity bool | NaN

text \<open>A field of a data frame: a Python \<open>int\<close>, \<open>float\<close> or \<open>str\<close>. A \<open>str\<close>
  is held as its UTF-8 bytes.\<close>

datatype cell = CInt int | CFloat pyfloat | CStr string

subsection \<open>Rounding to binary64\<close>

text \<open>The number of binary digits of a positive integer.\<close>

function bitlen :: "int \<Rightarrow> nat" where
  "bitlen n = (if n \<le> 0 then 0 else Suc (bitlen (n div 2)))"
  by pat_completeness auto
termination
  by (relation "measure nat") auto

declare bitlen.simps [simp del]

definition pow2 :: "int \<Rightarrow> rat" where
  "pow2 k = (if 0 \<le> k then 2 ^ nat k else 1 / 2 ^ nat (- k))"

text \<open>\<open>ilog2 a\<close> is the binary exponent of a positive rational: the \<open>e\<close> with
  \<open>2^e \<le> a < 2^(e+1)\<close>.\<close>

definition ilog2 :: "rat \<Rightarrow> int" where
  "ilog2 a =
     (let (p, q) = quotient_of a;
          k = int (bitlen p) - int (bitlen q)
      in if pow2 k \<le> a then k else k - 1)"

definition round_half_even :: "rat \<Rightarrow> int" where
  "round_half_even x =
     (let f = \<lfloor>x\<rfloor>; d = x - of_int f
      in if d < 1 / 2 then f
         else if 1 / 2 < d then f + 1
         else if even f then f else f + 1)"

text \<open>
  The binary64 value nearest to a rational, ties to the even significand. With \<open>e\<close>
  the binary exponent of \<open>\<bar>x\<bar>\<close>, the significand \<open>m\<close> has 53 bits and counts units
  of \<open>2^q\<close>, \<open>q = e - 52\<close>; the least exponent of a normal number is \<open>-1022\<close>, below
  it the unit stays \<open>2^-1074\<close>. The result \<open>m * 2^q\<close> is an infinity when it reaches
  \<open>2^1024\<close>: when \<open>e\<close> exceeds 1023, or \<open>e = 1023\<close> and \<open>m\<close> was rounded up to \<open>2^53\<close>.
\<close>

definition rnd64 :: "rat \<Rightarrow> pyfloat" where
  "rnd64 x =
     (if x = 0 then Finite 0
      else
        let a = \<bar>x\<bar>;
            e = ilog2 a;
            q = max e (- 1022) - 52;
            m = round_half_even (a / pow2 q)
        in if 971 < q \<or> (q = 971 \<and> 2 ^ 53 \<le> m) then Infinity (x < 0)
           else Finite (if x < 0 then - (of_int m * pow2 q) else of_int m * pow2 q))"

text \<open>Python's \<open>x * y\<close> and \<open>x / y\<close> on floats. Division by zero raises.\<close>

fun fmul :: "pyfloat \<Rightarrow> pyfloat \<Rightarrow> pyfloat" where
  "fmul NaN _ = NaN"
| "fmul _ NaN = NaN"
| "fmul (Finite a) (Finite b) = rnd64 (a * b)"
| "fmul (Finite a) (Infinity s) = (if a = 0 then NaN else Infinity (s \<noteq> (a < 0)))"
| "fmul (Infinity s) (Finite b) = (if b = 0 then NaN else Infinity (s \<noteq> (b < 0)))"
| "fmul (Infinity s) (Infinity s') = Infinity (s \<noteq> s')"

fun fdiv :: "pyfloat \<Rightarrow> pyfloat \<Rightarrow> error + pyfloat" where
  "fdiv x (Finite b) =
     (if b = 0 then Inl ZeroDivisionError
      else Inr (case x of
                  Finite a \<Rightarrow> rnd64 (a / b)
                | Infinity s \<Rightarrow> Infinity (s \<noteq> (b < 0))
                | NaN \<Rightarrow> NaN))"
| "fdiv NaN _ = Inr NaN"
| "fdiv _ NaN = Inr NaN"
| "fdiv (Finite a) (Infinity s) = Inr (Finite 0)"
| "fdiv (Infinity s) (Infinity s') = Inr NaN"

text \<open>
  Python's \<open>round(x, ndigits)\<close> for a float and \<open>ndigits \<ge> 0\<close>: the decimal with
  \<open>ndigits\<close> digits after the point that is nearest to the exact value of \<open>x\<close> (a tie
  goes to the even last digit), read back as a float. An infinity or a NaN is returned
  as it is, and so is \<open>x\<close> when \<open>ndigits\<close> exceeds 323. (CPython raises OverflowError
  when reading back gives an infinity; no binary64 argument does, a float of magnitude
  \<open>2^53\<close> or more being an integer.)
\<close>

definition py_round :: "pyfloat \<Rightarrow> nat \<Rightarrow> pyfloat" where
  "py_round x ndigits =
     (case x of
        Finite a \<Rightarrow>
          if 323 < ndigits then x
          else rnd64 (of_int (round_half_even (a * 10 ^ ndigits)) / 10 ^ ndigits)
      | _ \<Rightarrow> x)"

text \<open>A float literal of the source denotes the float nearest to its decimal.\<close>

definition float_lit :: "rat \<Rightarrow> pyfloat" where
  "float_lit q = rnd64 q"

text \<open>
  \<open>max(xs)\<close> on a list: ValueError on the empty list; otherwise the first element is
  the candidate, replaced by each later element that is greater.
\<close>

fun py_max :: "rat list \<Rightarrow> error + rat" where
  "py_max [] = Inl ValueError"
| "py_max (x # xs) = Inr (foldl (\<lambda>best y. if best < y then y else best) x xs)"

subsection \<open>Integers as text\<close>

definition digit_char :: "nat \<Rightarrow> char" where
  "digit_char d = ''0123456789'' ! d"

function str_nat :: "nat \<Rightarrow> string" where
  "str_nat n = (if n < 10 then [digit_char n] else str_nat (n div 10) @ [digit_char (n mod 10)])"
  by pat_completeness auto
termination
  by (relation "measure id") auto

declare str_nat.simps [simp del]

definition str_int :: "int \<Rightarrow> string" where
  "str_int i = (if i < 0 then CHR ''-'' # str_nat (nat (- i)) else str_nat (nat i))"

text \<open>The format \<open>{n:02d}\<close> of a non-negative integer: at least two digits, padded
  with zeros on the left.\<close>

definition fmt_02d :: "nat \<Rightarrow> string" where
  "fmt_02d n = (let s = str_nat n in replicate (2 - length s) CHR ''0'' @ s)"

subsection \<open>\<open>datetime\<close> and \<open>timedelta\<close>\<close>

text \<open>
  A \<open>datetime\<close>: the date as its proleptic Gregorian ordinal (\<open>toordinal()\<close>, day 1 is
  0001-01-01, the last day 9999-12-31 is 3652059) and the time of day. The program
  reads the time of day only: it adds seconds and formats \<open>%H:%M:%S\<close>.
\<close>

record datetime =
  dt_ordinal :: nat
  dt_hour :: nat
  dt_minute :: nat
  dt_second :: nat
  dt_microsecond :: nat

definition MAXORDINAL :: nat where
  "MAXORDINAL = 3652059"

definition valid_datetime :: "datetime \<Rightarrow> bool" where
  "valid_datetime d \<longleftrightarrow>
     1 \<le> dt_ordinal d \<and> dt_ordinal d \<le> MAXORDINAL \<and> dt_hour d < 24 \<and>
     dt_minute d < 60 \<and> dt_second d < 60 \<and> dt_microsecond d < 1000000"

text \<open>\<open>timedelta(seconds=n)\<close> for \<open>n \<ge> 0\<close>, as its number of seconds: OverflowError
  when it has more than 999999999 days.\<close>

definition timedelta :: "nat \<Rightarrow> error + nat" where
  "timedelta n = (if 999999999 < n div 86400 then Inl OverflowError else Inr n)"

text \<open>\<open>d + delta\<close>: the seconds are added to the time of day and carry into the day,
  and a day out of range raises OverflowError.\<close>

definition datetime_add :: "datetime \<Rightarrow> nat \<Rightarrow> error + datetime" where
  "datetime_add d delta =
     (let total = dt_hour d * 3600 + dt_minute d * 60 + dt_second d + delta;
          days = dt_ordinal d + total div 86400;
          rem = total mod 86400
      in if 0 < days \<and> days \<le> MAXORDINAL
         then Inr (d\<lparr>dt_ordinal := days, dt_hour := rem div 3600,
                     dt_minute := rem mod 3600 div 60, dt_second := rem mod 60\<rparr>)
         else Inl OverflowError)"

definition strftime_HMS :: "datetime \<Rightarrow> string" where
  "strftime_HMS d = fmt_02d (dt_hour d) @ '':'' @ fmt_02d (dt_minute d) @ '':'' @ fmt_02d (dt_second d)"

section \<open>The report formatter\<close>

subsection \<open>The rows of the Test Data table\<close>

text \<open>
  The body of the loop at index \<open>i\<close> with the zipped triple \<open>(v, t, c)\<close>;
  \<open>n_voltages\<close> is \<open>len(voltages)\<close>.
\<close>

definition sample_row :: "nat \<Rightarrow> datetime \<Rightarrow> nat \<Rightarrow> rat \<Rightarrow> rat \<Rightarrow> rat \<Rightarrow> error + cell list" where
  "sample_row n_voltages start_time i v t c =
     (let sample_id = i + 1;
          sampling_time = fmt_02d ((i * 2) div 60) @ '':'' @ fmt_02d ((i * 2) mod 60)
      in case timedelta (i * 2) of
           Inl e \<Rightarrow> Inl e
         | Inr delta \<Rightarrow>
            (case datetime_add start_time delta of
               Inl e \<Rightarrow> Inl e
             | Inr moment \<Rightarrow>
                (let actual_time = strftime_HMS moment
                 in case fdiv (fmul (Finite c) (Finite 2)) (Finite 3600) of
                      Inl e \<Rightarrow> Inl e
                    | Inr q \<Rightarrow>
                       (let capacity = py_round q 6;
                            energy = py_round (fmul capacity (Finite v)) 6;
                            step_type =
                              (if i < n_voltages div 2 then ''Constant Current'' else ''Rest'')
                        in Inr [CInt (int sample_id), CStr sampling_time, CStr [],
                                CStr actual_time, CFloat (Finite v), CFloat (Finite c),
                                CFloat capacity, CFloat energy, CStr step_type, CInt 1,
                                CInt (int (i + 1)), CInt 0, CFloat (Finite t)]))))"

text \<open>The loop over \<open>enumerate(zip(voltages, temps, currents))\<close>: the rows are
  appended to \<open>test_data_rows\<close>, and an exception ends the call.\<close>

fun test_data_loop ::
  "nat \<Rightarrow> datetime \<Rightarrow> nat \<Rightarrow> (rat \<times> rat \<times> rat) list \<Rightarrow> cell list list \<Rightarrow> error + cell list list" where
  "test_data_loop n st i [] rows = Inr rows"
| "test_data_loop n st i ((v, t, c) # rest) rows =
     (case sample_row n st i v t c of
        Inl e \<Rightarrow> Inl e
      | Inr row \<Rightarrow> test_data_loop n st (Suc i) rest (rows @ [row]))"

definition test_data_rows :: "rat list \<Rightarrow> rat list \<Rightarrow> rat list \<Rightarrow> datetime \<Rightarrow> error + cell list list" where
  "test_data_rows voltages temps currents start_time =
     test_data_loop (length voltages) start_time 0 (zip voltages (zip temps currents)) []"

subsection \<open>The operation log\<close>

text \<open>A jump event is a \<open>dict\<close>; \<open>e[k]\<close> raises KeyError when the key is missing.\<close>

type_synonym pydict = "string \<rightharpoonup> cell"

definition getitem :: "pydict \<Rightarrow> string \<Rightarrow> error + cell" where
  "getitem e k = (case e k of None \<Rightarrow> Inl (KeyError k) | Some x \<Rightarrow> Inr x)"

fun op_log :: "pydict list \<Rightarrow> error + cell list list" where
  "op_log [] = Inr []"
| "op_log (e # es) =
     (case getitem e ''timestamp'' of
        Inl x \<Rightarrow> Inl x
      | Inr ts \<Rightarrow>
         (case getitem e ''sample_id'' of
            Inl x \<Rightarrow> Inl x
          | Inr sid \<Rightarrow>
             (case getitem e ''event'' of
                Inl x \<Rightarrow> Inl x
              | Inr ev \<Rightarrow>
                 (case op_log es of
                    Inl x \<Rightarrow> Inl x
                  | Inr rows \<Rightarrow> Inr ([ts, sid, ev] # rows)))))"

subsection \<open>The four data frames\<close>

text \<open>A \<open>DataFrame\<close> built from a list of rows and a list of column names.\<close>

record dataframe =
  df_columns :: "string list"
  df_rows :: "cell list list"

definition test_columns :: "string list" where
  "test_columns =
     [''Sample ID'', ''Sampling'', ''Termination'', ''Actual Time'', ''Voltage (V)'',
      ''Current (A)'', ''Capacity (Ah)'', ''Energy (Wh)'', ''Step Type'',
      ''Cycle Count'', ''Step Num'', ''DC Resist'',
      ''Temperature ('' @ [CHR 0xC2, CHR 0xB0] @ ''C)'']"

definition stats_columns :: "string list" where
  "stats_columns =
     [''Cycle Num'', ''CC Charge'', ''CV Charge'', ''Total Charge'', ''Total Disch'',
      ''CC Charge Time'', ''CV Charge Time'', ''CC Disch Time'', ''Total Disch Time'',
      ''Efficiency (%)'', ''Capacity (%)'', ''Avg Disch Volt'', ''Median Volt'',
      ''Max Temp'', ''DC Resistance (m'' @ [CHR 0xCE, CHR 0xA9] @ '')'']"

definition op_log_columns :: "string list" where
  "op_log_columns = [''Timestamp'', ''Sample ID'', ''Event Type'']"

definition proc_columns :: "string list" where
  "proc_columns =
     [''Step Type'', ''Constant Type'', ''Voltage Limit'', ''Current Limit'',
      ''Capacity Limit'', ''Time Limit'', ''Temp Limit'', ''Delta V Limit'',
      ''Target Cap'', ''Step Num'', ''Jump Count'']"

definition stats_row :: "rat \<Rightarrow> cell list" where
  "stats_row max_temps =
     [CInt 1, CFloat (float_lit 0.056245), CInt 0, CFloat (float_lit 0.056245),
      CFloat (float_lit 0.042359), CStr ''00:40.0'', CStr ''00:00.0'', CStr ''00:30.0'',
      CStr ''00:30.0'', CFloat (float_lit 75.31297), CInt 100, CFloat (float_lit 3.207877),
      CFloat (float_lit 3.207877), CFloat (Finite max_temps), CFloat (float_lit 15.6)]"

definition proc_row :: "cell list" where
  "proc_row =
     [CStr (''CC'' @ [CHR 0xE2, CHR 0x80, CHR 0x91] @ ''CV Charge''), CStr ''Constant Voltage'',
      CInt 5, CFloat (float_lit 3.65), CFloat (float_lit 3.65), CFloat (float_lit 0.05),
      CInt 6, CStr ''00:40.0'', CFloat (float_lit 0.03), CInt 0, CInt 1]"

record report =
  test_df :: dataframe
  stats_df :: dataframe
  op_log_df :: dataframe
  proc_df :: dataframe

text \<open>
  The statements of \<open>generate_simulation_csv\<close> up to the construction of \<open>proc_df\<close>,
  in the order of the source: the loop, \<open>max(temps)\<close>, the operation log.
\<close>

definition simulation_frames ::
  "rat list \<Rightarrow> rat list \<Rightarrow> rat list \<Rightarrow> datetime \<Rightarrow> pydict list \<Rightarrow> error + report" where
  "simulation_frames voltages temps currents start_time jump_events =
     (case test_data_rows voltages temps currents start_time of
        Inl e \<Rightarrow> Inl e
      | Inr rows \<Rightarrow>
         (case py_max temps of
            Inl e \<Rightarrow> Inl e
          | Inr m \<Rightarrow>
             (case op_log jump_events of
                Inl e \<Rightarrow> Inl e
              | Inr events \<Rightarrow>
                 Inr \<lparr>test_df = \<lparr>df_columns = test_columns, df_rows = rows\<rparr>,
                      stats_df = \<lparr>df_columns = stats_columns, df_rows = [stats_row m]\<rparr>,
                      op_log_df = \<lparr>df_columns = op_log_columns, df_rows = events\<rparr>,
                      proc_df = \<lparr>df_columns = proc_columns, df_rows = [proc_row]\<rparr>\<rparr>)))"

subsection \<open>The text\<close>

text \<open>
  The text that is returned. How pandas writes a float (the shortest decimal that reads
  back as the same float) is not part of the program: the text holds the characters
  written for a float \<open>x\<close> as one token \<open>FloatStr x\<close>, which contains no comma, no
  quote and no line break. Every other character is a \<open>Ch\<close>.
\<close>

datatype tchar = Ch char | FloatStr pyfloat

type_synonym pytext = "tchar list"

definition lit :: "string \<Rightarrow> pytext" where
  "lit s = map Ch s"

definition newline :: char where
  "newline = CHR 0x0A"

text \<open>
  \<open>DataFrame.to_csv(buf, index=False)\<close>: the column names, then the rows, each as
  one record of the csv writer with the separator \<open>,\<close>, the line end \<open>\n\<close> (the default
  on a POSIX system) and minimal quoting: a string with a comma, a double quote, a line
  feed or a carriage return in it is written between double quotes, each double quote
  in it doubled. (Older versions of the csv module leave a string with a carriage
  return and none of the others unquoted; no statement below is about such a string.)
  Each column of the frames built here holds values of one type, which are written as
  they are.
\<close>

definition needs_quotes :: "string \<Rightarrow> bool" where
  "needs_quotes s =
     list_ex (\<lambda>c. c = CHR '','' \<or> c = CHR 0x22 \<or> c = CHR 0x0A \<or> c = CHR 0x0D) s"

definition quote_str :: "string \<Rightarrow> string" where
  "quote_str s =
     (if needs_quotes s
      then CHR 0x22 # concat (map (\<lambda>c. if c = CHR 0x22 then [c, c] else [c]) s) @ [CHR 0x22]
      else s)"

fun csv_field :: "cell \<Rightarrow> pytext" where
  "csv_field (CInt i) = lit (str_int i)"
| "csv_field (CFloat x) = [FloatStr x]"
| "csv_field (CStr s) = lit (quote_str s)"

fun join_comma :: "pytext list \<Rightarrow> pytext" where
  "join_comma [] = []"
| "join_comma [f] = f"
| "join_comma (f # fs) = f @ Ch CHR '','' # join_comma fs"

definition csv_record :: "pytext list \<Rightarrow> pytext" where
  "csv_record items = join_comma items @ [Ch newline]"

definition to_csv :: "dataframe \<Rightarrow> pytext" where
  "to_csv df =
     csv_record (map (\<lambda>name. csv_field (CStr name)) (df_columns df)) @
     concat (map (\<lambda>row. csv_record (map csv_field row)) (df_rows df))"

text \<open>The writes to \<open>output\<close>, in the order of the source.\<close>

definition write_report :: "report \<Rightarrow> pytext" where
  "write_report r =
     lit (''### Test Data ###'' @ [newline]) @ to_csv (test_df r) @
     lit ([newline] @ ''### Cycle Statistics ###'' @ [newline]) @ to_csv (stats_df r) @
     lit ([newline] @ ''### Operation Log ###'' @ [newline]) @ to_csv (op_log_df r) @
     lit ([newline] @ ''### Process Information ###'' @ [newline]) @ to_csv (proc_df r)"

definition generate_simulation_csv ::
  "rat list \<Rightarrow> rat list \<Rightarrow> rat list \<Rightarrow> datetime \<Rightarrow> pydict list \<Rightarrow> error + pytext" where
  "generate_simulation_csv voltages temps currents start_time jump_events =
     (case simulation_frames voltages temps currents start_time jump_events of
        Inl e \<Rightarrow> Inl e
      | Inr r \<Rightarrow> Inr (write_report r))"

section \<open>Notions used in the statements\<close>

text \<open>The time of day of a \<open>datetime\<close>, in seconds.\<close>

definition seconds_of_day :: "datetime \<Rightarrow> nat" where
  "seconds_of_day d = dt_hour d * 3600 + dt_minute d * 60 + dt_second d"

text \<open>The sample at index \<open>i\<close> has a time stamp: its offset is a \<open>timedelta\<close> and its
  day is a day of the calendar.\<close>

definition time_fits :: "datetime \<Rightarrow> nat \<Rightarrow> bool" where
  "time_fits start_time i \<longleftrightarrow>
     (i * 2) div 86400 \<le> 999999999 \<and>
     0 < dt_ordinal start_time + (seconds_of_day start_time + i * 2) div 86400 \<and>
     dt_ordinal start_time + (seconds_of_day start_time + i * 2) div 86400 \<le> MAXORDINAL"

text \<open>All samples of a run of \<open>n\<close> rows have a time stamp.\<close>

definition run_fits :: "datetime \<Rightarrow> nat \<Rightarrow> bool" where
  "run_fits start_time n \<longleftrightarrow> (\<forall>i<n. time_fits start_time i)"

text \<open>
  The formats of the specification, written without the formatting functions of the
  code: a number below 100 as two decimal digits; a number of seconds as \<open>MM:SS\<close>,
  minutes and seconds in two digits each (the minutes in all their digits from 100
  minutes on); a number of seconds since midnight as \<open>HH:MM:SS\<close> on the 24 hour clock.
\<close>

definition two_digits :: "nat \<Rightarrow> string" where
  "two_digits n = [digit_char (n div 10), digit_char (n mod 10)]"

definition mmss :: "nat \<Rightarrow> string" where
  "mmss s =
     (if s div 60 < 100 then two_digits (s div 60) else str_nat (s div 60)) @ '':'' @
     two_digits (s mod 60)"

definition hhmmss :: "nat \<Rightarrow> string" where
  "hhmmss s =
     two_digits (s div 3600 mod 24) @ '':'' @ two_digits (s div 60 mod 60) @ '':'' @
     two_digits (s mod 60)"

text \<open>A jump event of the data model: a time stamp string, a sample index and a
  description, under the keys that the formatter reads.\<close>

definition jump_event :: "pydict \<Rightarrow> bool" where
  "jump_event e \<longleftrightarrow>
     (\<exists>ts sid ev. e ''timestamp'' = Some (CStr ts) \<and> e ''sample_id'' = Some (CInt sid) \<and>
        e ''event'' = Some (CStr ev))"

text \<open>The lines of a text: the pieces between its line feeds (Python's
  \<open>text.split('\n')\<close>).\<close>

fun split_on :: "tchar \<Rightarrow> pytext \<Rightarrow> pytext list" where
  "split_on s [] = [[]]"
| "split_on s (c # cs) =
     (if c = s then [] # split_on s cs
      else (case split_on s cs of [] \<Rightarrow> [[c]] | l # ls \<Rightarrow> (c # l) # ls))"

definition text_lines :: "pytext \<Rightarrow> pytext list" where
  "text_lines t = split_on (Ch newline) t"

text \<open>A field without a line feed in it.\<close>

fun one_line_cell :: "cell \<Rightarrow> bool" where
  "one_line_cell (CStr s) = (newline \<notin> set s)"
| "one_line_cell _ = True"

text \<open>A jump event whose time stamp and description have no line break (line feed or
  carriage return) in them.\<close>

definition one_line_event :: "pydict \<Rightarrow> bool" where
  "one_line_event e \<longleftrightarrow>
     (\<forall>s. e ''timestamp'' = Some (CStr s) \<or> e ''event'' = Some (CStr s) \<longrightarrow>
        newline \<notin> set s \<and> CHR 0x0D \<notin> set s)"

text \<open>The record of a row as one line of text, without its line end.\<close>

definition record_line :: "cell list \<Rightarrow> pytext" where
  "record_line row = join_comma (map csv_field row)"

subsection \<open>Example inputs\<close>

text \<open>A start time, 2026-11-04 23:59:58, the jump event of the call in the source, a
  jump event at a sample index that no run of 100 samples has, and a jump event with a
  description of two lines.\<close>

definition start0 :: datetime where
  "start0 = \<lparr>dt_ordinal = 739924, dt_hour = 23, dt_minute = 59, dt_second = 58,
              dt_microsecond = 0\<rparr>"

definition jump0 :: pydict where
  "jump0 = [''timestamp'' \<mapsto> CStr ''19:31.7'', ''sample_id'' \<mapsto> CInt 3,
            ''event'' \<mapsto> CStr ''Step jumped due to time limit'']"

definition jump_far :: pydict where
  "jump_far = [''timestamp'' \<mapsto> CStr ''20:05.0'', ''sample_id'' \<mapsto> CInt 500,
               ''event'' \<mapsto> CStr ''Step jumped due to voltage limit'']"


section \<open>Properties of the helper functions\<close>

subsection \<open>Rounding\<close>

text \<open>
  \<open>ilog2\<close> is the binary exponent, and a finite result of \<open>rnd64\<close> is within half a unit
  of the last place of its argument.
\<close>

lemma pow2_powi: "pow2 k = 2 powi k"
  by (simp add: pow2_def power_int_def inverse_eq_divide power_one_over)

lemma pow2_pos: "0 < pow2 k"
  by (simp add: pow2_powi)

lemma pow2_add: "pow2 (i + j) = pow2 i * pow2 j"
  by (simp add: pow2_powi power_int_add)

lemma pow2_nat: "pow2 (int n) = 2 ^ n"
  by (simp add: pow2_def)

lemma bitlen_bounds: "0 < n \<Longrightarrow> 2 ^ (bitlen n - 1) \<le> n \<and> n < 2 ^ bitlen n"
proof (induction n rule: bitlen.induct)
  case (1 n)
  show ?case
  proof (cases "n div 2 = 0")
    case True
    with "1.prems" have "n = 1" by linarith
    then show ?thesis
      by (simp add: bitlen.simps [of 1] bitlen.simps [of 0])
  next
    case False
    with "1.prems" have pos: "0 < n div 2" by linarith
    from "1.IH" [OF _ pos] "1.prems"
    have ih: "2 ^ (bitlen (n div 2) - 1) \<le> n div 2" "n div 2 < 2 ^ bitlen (n div 2)" by simp_all
    have b: "bitlen n = Suc (bitlen (n div 2))"
      using "1.prems" by (subst bitlen.simps) simp
    from pos have "0 < bitlen (n div 2)" by (subst bitlen.simps) simp
    then obtain b' where b': "bitlen (n div 2) = Suc b'" by (cases "bitlen (n div 2)") auto
    from ih b' have "2 * 2 ^ b' \<le> 2 * (n div 2)" by simp
    also have "\<dots> \<le> n"
    proof -
      have "n = 2 * (n div 2) + n mod 2" by simp
      moreover have "0 \<le> n mod 2" by simp
      ultimately show ?thesis by linarith
    qed
    finally have lower: "2 ^ (bitlen n - 1) \<le> n" by (simp add: b b')
    from ih(2) have "n div 2 + 1 \<le> 2 ^ bitlen (n div 2)" by linarith
    then have "2 * (n div 2 + 1) \<le> 2 * 2 ^ bitlen (n div 2)" by simp
    moreover have "n = 2 * (n div 2) + n mod 2" by simp
    moreover have "n mod 2 < 2" by simp
    ultimately have "n < 2 ^ bitlen n" by (simp add: b)
    with lower show ?thesis by simp
  qed
qed

lemma ilog2_bounds:
  assumes "0 < a"
  shows "pow2 (ilog2 a) \<le> a \<and> a < pow2 (ilog2 a + 1)"
proof -
  obtain p q where pq: "quotient_of a = (p, q)" by (cases "quotient_of a") auto
  then have q: "0 < q" and a: "a = of_int p / of_int q"
    by (simp_all add: quotient_of_denom_pos quotient_of_div)
  with assms have p: "0 < p" by (simp add: zero_less_divide_iff)
  let ?bp = "bitlen p" and ?bq = "bitlen q"
  from bitlen_bounds [OF p] have p1: "(2::rat) ^ (?bp - 1) \<le> of_int p" and p2: "(of_int p :: rat) < 2 ^ ?bp"
    by (metis of_int_le_iff of_int_numeral of_int_power, metis of_int_less_iff of_int_numeral of_int_power)
  from bitlen_bounds [OF q] have q1: "(2::rat) ^ (?bq - 1) \<le> of_int q" and q2: "(of_int q :: rat) < 2 ^ ?bq"
    by (metis of_int_le_iff of_int_numeral of_int_power, metis of_int_less_iff of_int_numeral of_int_power)
  from p have bp: "0 < ?bp" by (subst bitlen.simps) simp
  from q have bq: "0 < ?bq" by (subst bitlen.simps) simp
  let ?k = "int ?bp - int ?bq"
  have qpos: "(0::rat) < of_int q" using q by simp
  have upper: "a < pow2 (?k + 1)"
  proof -
    have "pow2 (?k + 1) * 2 ^ (?bq - 1) = pow2 (?k + 1 + int (?bq - 1))"
      using pow2_add [of "?k + 1" "int (?bq - 1)"] by (simp only: pow2_nat)
    also have "?k + 1 + int (?bq - 1) = int ?bp" using bq by simp
    finally have "pow2 (?k + 1) * 2 ^ (?bq - 1) = 2 ^ ?bp" by (simp add: pow2_nat)
    with p2 have "of_int p < pow2 (?k + 1) * 2 ^ (?bq - 1)" by simp
    also have "\<dots> \<le> pow2 (?k + 1) * of_int q"
      using q1 pow2_pos [of "?k + 1"] by (simp add: mult_left_mono)
    finally show ?thesis using qpos by (simp add: a divide_less_eq)
  qed
  have lower: "pow2 (?k - 1) \<le> a"
  proof -
    have "pow2 (?k - 1) * 2 ^ ?bq = pow2 (?k - 1 + int ?bq)"
      using pow2_add [of "?k - 1" "int ?bq"] by (simp only: pow2_nat)
    also have "?k - 1 + int ?bq = int (?bp - 1)" using bp by simp
    finally have "pow2 (?k - 1) * 2 ^ ?bq = 2 ^ (?bp - 1)" by (simp add: pow2_nat)
    moreover have "pow2 (?k - 1) * of_int q \<le> pow2 (?k - 1) * 2 ^ ?bq"
      using q2 pow2_pos [of "?k - 1"] by (simp add: mult_left_mono)
    ultimately have "pow2 (?k - 1) * of_int q \<le> of_int p" using p1 by linarith
    then show ?thesis using qpos by (simp add: a le_divide_eq)
  qed
  show ?thesis
  proof (cases "pow2 ?k \<le> a")
    case True
    then have "ilog2 a = ?k" by (simp add: ilog2_def pq)
    with True upper show ?thesis by simp
  next
    case False
    then have "ilog2 a = ?k - 1" by (simp add: ilog2_def pq)
    with False lower show ?thesis by simp
  qed
qed

lemma round_half_even_near: "\<bar>of_int (round_half_even x) - x\<bar> \<le> 1 / 2"
proof -
  define d where "d = x - of_int \<lfloor>x\<rfloor>"
  have d: "0 \<le> d" "d < 1" unfolding d_def by linarith+
  have x: "x = of_int \<lfloor>x\<rfloor> + d" by (simp add: d_def)
  consider "d < 1 / 2" | "1 / 2 < d" | "d = 1 / 2" by linarith
  then show ?thesis
  proof cases
    case 1
    then have "round_half_even x = \<lfloor>x\<rfloor>"
      by (simp add: round_half_even_def Let_def d_def)
    with 1 d show ?thesis by (simp add: d_def)
  next
    case 2
    then have "round_half_even x = \<lfloor>x\<rfloor> + 1"
      by (simp add: round_half_even_def Let_def d_def)
    with 2 d show ?thesis by (simp add: d_def)
  next
    case 3
    then have "round_half_even x = \<lfloor>x\<rfloor> \<or> round_half_even x = \<lfloor>x\<rfloor> + 1"
      by (simp add: round_half_even_def Let_def d_def)
    with 3 show ?thesis by (auto simp: d_def)
  qed
qed

lemma rnd64_half_unit:
  assumes "rnd64 x = Finite r" and "x \<noteq> 0"
  shows "\<bar>r - x\<bar> \<le> pow2 (max (ilog2 \<bar>x\<bar>) (- 1022) - 52) / 2"
proof -
  define P where "P = pow2 (max (ilog2 \<bar>x\<bar>) (- 1022) - 52)"
  define m where "m = round_half_even (\<bar>x\<bar> / P)"
  have P: "0 < P" by (simp add: P_def pow2_pos)
  from assms have r: "r = (if x < 0 then - (of_int m * P) else of_int m * P)"
    by (simp add: rnd64_def Let_def P_def m_def split: if_splits)
  have "\<bar>of_int m - \<bar>x\<bar> / P\<bar> \<le> 1 / 2"
    unfolding m_def by (rule round_half_even_near)
  with P have "\<bar>of_int m - \<bar>x\<bar> / P\<bar> * P \<le> 1 / 2 * P"
    by (simp only: mult_le_cancel_right_pos)
  moreover have "(of_int m - \<bar>x\<bar> / P) * P = of_int m * P - \<bar>x\<bar>"
    using P by (simp add: left_diff_distrib)
  then have "\<bar>of_int m - \<bar>x\<bar> / P\<bar> * P = \<bar>of_int m * P - \<bar>x\<bar>\<bar>"
    using P by (metis abs_mult abs_of_pos)
  ultimately have near: "\<bar>of_int m * P - \<bar>x\<bar>\<bar> \<le> P / 2" by simp
  show ?thesis
  proof (cases "x < 0")
    case True
    with r have "r - x = - (of_int m * P - \<bar>x\<bar>)" by simp
    then have "\<bar>r - x\<bar> = \<bar>of_int m * P - \<bar>x\<bar>\<bar>" by (simp only: abs_minus_cancel)
    with near show ?thesis by (simp add: P_def)
  next
    case False
    with r have "r - x = of_int m * P - \<bar>x\<bar>" by simp
    with near show ?thesis by (simp add: P_def)
  qed
qed

subsection \<open>Times and the rows of the loop\<close>

lemma clock_hour: "(s::nat) mod 86400 div 3600 = s div 3600 mod 24"
proof -
  have "s mod (3600 * 24) = 3600 * (s div 3600 mod 24) + s mod 3600"
    by (rule mod_mult2_eq)
  then show ?thesis by simp
qed

lemma clock_minute: "(s::nat) mod 86400 mod 3600 div 60 = s div 60 mod 60"
proof -
  have "s mod 86400 mod 3600 = s mod 3600"
    by (rule mod_mod_cancel) simp
  moreover have "s mod (60 * 60) = 60 * (s div 60 mod 60) + s mod 60"
    by (rule mod_mult2_eq)
  ultimately show ?thesis by simp
qed

lemma clock_second: "(s::nat) mod 86400 mod 60 = s mod 60"
  by (rule mod_mod_cancel) simp

lemma fdiv_3600:
  "fdiv x (Finite 3600) =
     Inr (case x of Finite a \<Rightarrow> rnd64 (a / 3600) | Infinity s \<Rightarrow> Infinity s | NaN \<Rightarrow> NaN)"
  by (cases x) simp_all

lemma str_nat_digit: "n < 10 \<Longrightarrow> str_nat n = [digit_char n]"
  by (simp add: str_nat.simps)

lemma fmt_02d_two_digits: "n < 100 \<Longrightarrow> fmt_02d n = two_digits n"
proof (cases "n < 10")
  case True
  then show ?thesis
    by (simp add: fmt_02d_def two_digits_def str_nat_digit digit_char_def)
next
  case False
  assume "n < 100"
  with False have "str_nat n = [digit_char (n div 10), digit_char (n mod 10)]"
    by (subst str_nat.simps) (simp add: str_nat_digit)
  then show ?thesis
    by (simp add: fmt_02d_def two_digits_def)
qed

lemma length_str_nat: "10 ^ k \<le> n \<Longrightarrow> k < length (str_nat n)"
proof (induction k arbitrary: n)
  case 0
  then show ?case by (subst str_nat.simps) simp
next
  case (Suc k)
  from Suc.prems have big: "10 * 10 ^ k \<le> n" by simp
  moreover have "(1::nat) \<le> 10 ^ k" by simp
  ultimately have "\<not> n < 10" by linarith
  moreover from big have "10 ^ k \<le> n div 10" by linarith
  ultimately have "10 ^ k \<le> n div 10" and "\<not> n < 10" by simp_all
  with Suc.IH [of "n div 10"] show ?case
    by (subst str_nat.simps) simp
qed

lemma fmt_02d_long: "100 \<le> n \<Longrightarrow> fmt_02d n = str_nat n"
  using length_str_nat [of 2 n] by (simp add: fmt_02d_def)

lemma fmt_mmss: "fmt_02d ((i * 2) div 60) @ '':'' @ fmt_02d ((i * 2) mod 60) = mmss (i * 2)"
  by (simp add: mmss_def fmt_02d_two_digits fmt_02d_long)

lemma strftime_datetime_add:
  "datetime_add st delta = Inr d \<Longrightarrow> strftime_HMS d = hhmmss (seconds_of_day st + delta)"
  by (auto simp: datetime_add_def strftime_HMS_def hhmmss_def seconds_of_day_def Let_def
        clock_hour clock_minute clock_second fmt_02d_two_digits split: if_splits)

lemma sample_row_fits:
  assumes "time_fits st i"
  shows "\<exists>q. fdiv (fmul (Finite c) (Finite 2)) (Finite 3600) = Inr q \<and>
          sample_row n st i v t c =
            Inr [CInt (int (i + 1)), CStr (mmss (i * 2)), CStr [],
                 CStr (hhmmss (seconds_of_day st + i * 2)), CFloat (Finite v), CFloat (Finite c),
                 CFloat (py_round q 6), CFloat (py_round (fmul (py_round q 6) (Finite v)) 6),
                 CStr (if i < n div 2 then ''Constant Current'' else ''Rest''), CInt 1,
                 CInt (int (i + 1)), CInt 0, CFloat (Finite t)]"
proof -
  from assms obtain d where da: "datetime_add st (i * 2) = Inr d"
    by (auto simp: time_fits_def datetime_add_def seconds_of_day_def Let_def)
  from assms have td: "timedelta (i * 2) = Inr (i * 2)"
    by (simp add: time_fits_def timedelta_def)
  note sf = strftime_datetime_add [OF da]
  obtain q where q: "fdiv (fmul (Finite c) (Finite 2)) (Finite 3600) = Inr q"
    using fdiv_3600 by blast
  have "sample_row n st i v t c =
            Inr [CInt (int (i + 1)), CStr (mmss (i * 2)), CStr [],
                 CStr (hhmmss (seconds_of_day st + i * 2)), CFloat (Finite v), CFloat (Finite c),
                 CFloat (py_round q 6), CFloat (py_round (fmul (py_round q 6) (Finite v)) 6),
                 CStr (if i < n div 2 then ''Constant Current'' else ''Rest''), CInt 1,
                 CInt (int (i + 1)), CInt 0, CFloat (Finite t)]"
    by (simp only: sample_row_def Let_def td da sf fmt_mmss q sum.case)
  with q show ?thesis by blast
qed

lemma sample_row_Inl:
  assumes "sample_row n st i v t c = Inl e"
  shows "e = OverflowError \<and> \<not> time_fits st i"
proof -
  have "\<not> time_fits st i"
    using sample_row_fits [of st i c n v t] assms by auto
  moreover from assms have "e = OverflowError"
    by (auto simp: sample_row_def Let_def timedelta_def datetime_add_def fdiv_3600
          split: sum.splits if_splits)
  ultimately show ?thesis by simp
qed

lemma sample_row_Inr:
  assumes "sample_row n st i v t c = Inr row"
  shows "time_fits st i \<and>
         (\<exists>q. fdiv (fmul (Finite c) (Finite 2)) (Finite 3600) = Inr q \<and>
          row = [CInt (int (i + 1)), CStr (mmss (i * 2)), CStr [],
                 CStr (hhmmss (seconds_of_day st + i * 2)), CFloat (Finite v), CFloat (Finite c),
                 CFloat (py_round q 6), CFloat (py_round (fmul (py_round q 6) (Finite v)) 6),
                 CStr (if i < n div 2 then ''Constant Current'' else ''Rest''), CInt 1,
                 CInt (int (i + 1)), CInt 0, CFloat (Finite t)])"
proof (cases "time_fits st i")
  case True
  from sample_row_fits [OF True, of c n v t] assms True show ?thesis by auto
next
  case False
  then have "\<exists>e. sample_row n st i v t c = Inl e"
    by (auto simp: sample_row_def Let_def time_fits_def timedelta_def datetime_add_def
          seconds_of_day_def split: sum.splits)
  with assms show ?thesis by auto
qed

lemma test_data_loop_Inr:
  "test_data_loop n st i zs acc = Inr rows \<Longrightarrow>
     length rows = length acc + length zs \<and> take (length acc) rows = acc \<and>
     (\<forall>k<length zs. case zs ! k of (v, t, c) \<Rightarrow>
         sample_row n st (i + k) v t c = Inr (rows ! (length acc + k)))"
proof (induction zs arbitrary: i acc)
  case Nil
  then show ?case by simp
next
  case (Cons z zs)
  obtain v t c where z: "z = (v, t, c)" by (cases z) auto
  from Cons.prems z obtain row where row: "sample_row n st i v t c = Inr row"
    and rest: "test_data_loop n st (Suc i) zs (acc @ [row]) = Inr rows"
    by (auto split: sum.splits)
  from Cons.IH [OF rest] have len: "length rows = length acc + 1 + length zs"
    and tk: "take (length acc + 1) rows = acc @ [row]"
    and ih: "\<forall>k<length zs. case zs ! k of (v, t, c) \<Rightarrow>
         sample_row n st (Suc i + k) v t c = Inr (rows ! (length acc + 1 + k))"
    by simp_all
  from tk have tk': "take (length acc) rows = acc"
    by (metis Suc_eq_plus1 butlast_snoc butlast_take diff_add_inverse2 len le_add1)
  from tk len have at: "rows ! length acc = row"
    by (metis Suc_eq_plus1 lessI nth_append_length nth_take)
  have "case (z # zs) ! k of (v, t, c) \<Rightarrow>
         sample_row n st (i + k) v t c = Inr (rows ! (length acc + k))"
    if "k < length (z # zs)" for k
  proof (cases k)
    case 0
    then show ?thesis using z row at by simp
  next
    case (Suc k')
    with that ih show ?thesis by (auto split: prod.splits)
  qed
  with len tk' show ?case by simp
qed

lemma test_data_loop_fits:
  "(\<forall>k<length zs. time_fits st (i + k)) \<Longrightarrow> \<exists>rows. test_data_loop n st i zs acc = Inr rows"
proof (induction zs arbitrary: i acc)
  case Nil
  then show ?case by simp
next
  case (Cons z zs)
  obtain v t c where z: "z = (v, t, c)" by (cases z) auto
  from Cons.prems have "time_fits st i" by force
  then obtain row where row: "sample_row n st i v t c = Inr row"
    using sample_row_fits [of st i c n v t] by blast
  from Cons.prems have "\<forall>k<length zs. time_fits st (Suc i + k)" by force
  from Cons.IH [OF this] obtain rows where
    "test_data_loop n st (Suc i) zs (acc @ [row]) = Inr rows" by blast
  with z row show ?case by simp
qed

lemma test_data_loop_Inl:
  "test_data_loop n st i zs acc = Inl e \<Longrightarrow>
     e = OverflowError \<and> (\<exists>k<length zs. \<not> time_fits st (i + k))"
proof (induction zs arbitrary: i acc)
  case Nil
  then show ?case by simp
next
  case (Cons z zs)
  obtain v t c where z: "z = (v, t, c)" by (cases z) auto
  show ?case
  proof (cases "sample_row n st i v t c")
    case (Inl e')
    with Cons.prems z have "e = e'" by simp
    with Inl sample_row_Inl show ?thesis by fastforce
  next
    case (Inr row)
    with Cons.prems z have "test_data_loop n st (Suc i) zs (acc @ [row]) = Inl e" by simp
    from Cons.IH [OF this] obtain k where "e = OverflowError" "k < length zs"
      "\<not> time_fits st (Suc i + k)" by blast
    then show ?thesis by (auto intro!: exI [of _ "Suc k"])
  qed
qed

lemma py_max_Max: "xs \<noteq> [] \<Longrightarrow> py_max xs = Inr (Max (set xs))"
proof -
  have step: "(\<lambda>best y. if best < y then y else best) = (\<lambda>best y :: rat. max y best)"
    by (auto simp: fun_eq_iff max_def)
  have "foldl (\<lambda>best y. if best < y then y else best) x ys = Max (set (x # ys))"
    for x :: rat and ys
    unfolding step using Max.set_eq_fold [of x ys] by (simp add: foldl_conv_fold)
  then show "xs \<noteq> [] \<Longrightarrow> py_max xs = Inr (Max (set xs))"
    by (cases xs) simp_all
qed

lemma op_log_Inr:
  "op_log es = Inr rows \<Longrightarrow>
     length rows = length es \<and>
     (\<forall>i<length es. \<exists>ts sid ev. (es ! i) ''timestamp'' = Some ts \<and>
        (es ! i) ''sample_id'' = Some sid \<and> (es ! i) ''event'' = Some ev \<and>
        rows ! i = [ts, sid, ev])"
proof (induction es arbitrary: rows)
  case Nil
  then show ?case by simp
next
  case (Cons e es)
  from Cons.prems obtain ts sid ev rest where
    e: "e ''timestamp'' = Some ts" "e ''sample_id'' = Some sid" "e ''event'' = Some ev"
    and rest: "op_log es = Inr rest" and rows: "rows = [ts, sid, ev] # rest"
    by (auto simp: getitem_def split: sum.splits option.splits)
  from Cons.IH [OF rest] have len: "length rest = length es"
    and ih: "\<forall>i<length es. \<exists>ts sid ev. (es ! i) ''timestamp'' = Some ts \<and>
        (es ! i) ''sample_id'' = Some sid \<and> (es ! i) ''event'' = Some ev \<and>
        rest ! i = [ts, sid, ev]"
    by simp_all
  have "\<exists>ts sid ev. ((e # es) ! i) ''timestamp'' = Some ts \<and>
        ((e # es) ! i) ''sample_id'' = Some sid \<and> ((e # es) ! i) ''event'' = Some ev \<and>
        rows ! i = [ts, sid, ev]" if "i < length (e # es)" for i
  proof (cases i)
    case 0
    with e rows show ?thesis by simp
  next
    case (Suc j)
    with that ih rows show ?thesis by simp
  qed
  with len rows show ?case by simp
qed

lemma op_log_jump_events:
  "\<forall>e\<in>set es. jump_event e \<Longrightarrow> \<exists>rows. op_log es = Inr rows"
proof (induction es)
  case Nil
  then show ?case by simp
next
  case (Cons e es)
  then obtain rows where "op_log es = Inr rows" by auto
  moreover from Cons.prems have "jump_event e" by simp
  ultimately show ?case
    by (auto simp: jump_event_def getitem_def)
qed

lemma op_log_Inl: "op_log es = Inl x \<Longrightarrow> \<exists>k. x = KeyError k"
proof (induction es)
  case Nil
  then show ?case by simp
next
  case (Cons e es)
  then show ?case
    by (auto simp: getitem_def split: sum.splits option.splits)
qed


lemma test_data_rows_cells:
  assumes "test_data_rows vs ts cs st = Inr rows"
  shows "length rows = min (length vs) (min (length cs) (length ts))"
    and "i < length rows \<Longrightarrow>
      \<exists>q. fdiv (fmul (Finite (cs ! i)) (Finite 2)) (Finite 3600) = Inr q \<and>
        rows ! i =
          [CInt (int (i + 1)), CStr (mmss (i * 2)), CStr [],
           CStr (hhmmss (seconds_of_day st + i * 2)), CFloat (Finite (vs ! i)),
           CFloat (Finite (cs ! i)), CFloat (py_round q 6),
           CFloat (py_round (fmul (py_round q 6) (Finite (vs ! i))) 6),
           CStr (if i < length vs div 2 then ''Constant Current'' else ''Rest''), CInt 1,
           CInt (int (i + 1)), CInt 0, CFloat (Finite (ts ! i))]"
proof -
  let ?zs = "zip vs (zip ts cs)"
  from assms have loop: "test_data_loop (length vs) st 0 ?zs [] = Inr rows"
    by (simp add: test_data_rows_def)
  from test_data_loop_Inr [OF loop] have len: "length rows = length ?zs"
    and cells: "\<forall>k<length ?zs. case ?zs ! k of (v, t, c) \<Rightarrow>
         sample_row (length vs) st k v t c = Inr (rows ! k)"
    by simp_all
  from len show "length rows = min (length vs) (min (length cs) (length ts))"
    by (simp add: min.commute)
  assume i: "i < length rows"
  with len cells have "sample_row (length vs) st i (vs ! i) (ts ! i) (cs ! i) = Inr (rows ! i)"
    by (auto split: prod.splits)
  from sample_row_Inr [OF this]
  show "\<exists>q. fdiv (fmul (Finite (cs ! i)) (Finite 2)) (Finite 3600) = Inr q \<and>
        rows ! i =
          [CInt (int (i + 1)), CStr (mmss (i * 2)), CStr [],
           CStr (hhmmss (seconds_of_day st + i * 2)), CFloat (Finite (vs ! i)),
           CFloat (Finite (cs ! i)), CFloat (py_round q 6),
           CFloat (py_round (fmul (py_round q 6) (Finite (vs ! i))) 6),
           CStr (if i < length vs div 2 then ''Constant Current'' else ''Rest''), CInt 1,
           CInt (int (i + 1)), CInt 0, CFloat (Finite (ts ! i))]"
    by blast
qed

lemma test_data_rows_returns:
  assumes "run_fits st (min (length vs) (min (length cs) (length ts)))"
  shows "\<exists>rows. test_data_rows vs ts cs st = Inr rows"
proof -
  from assms have "\<forall>k<length (zip vs (zip ts cs)). time_fits st (0 + k)"
    by (simp add: run_fits_def min.commute)
  from test_data_loop_fits [OF this] show ?thesis
    by (simp add: test_data_rows_def)
qed

lemma test_data_rows_Inl:
  assumes "test_data_rows vs ts cs st = Inl e"
  shows "e = OverflowError \<and> \<not> run_fits st (min (length vs) (min (length cs) (length ts)))"
proof -
  from assms have "test_data_loop (length vs) st 0 (zip vs (zip ts cs)) [] = Inl e"
    by (simp add: test_data_rows_def)
  from test_data_loop_Inl [OF this] show ?thesis
    by (auto simp: run_fits_def min.commute)
qed

text \<open>The report of a call that returns.\<close>

lemma generate_returns:
  assumes "ts \<noteq> []" and "\<forall>e\<in>set evs. jump_event e"
    and "run_fits st (min (length vs) (min (length cs) (length ts)))"
  shows "\<exists>rows events. test_data_rows vs ts cs st = Inr rows \<and> op_log evs = Inr events \<and>
     generate_simulation_csv vs ts cs st evs =
       Inr (write_report
         \<lparr>test_df = \<lparr>df_columns = test_columns, df_rows = rows\<rparr>,
          stats_df = \<lparr>df_columns = stats_columns, df_rows = [stats_row (Max (set ts))]\<rparr>,
          op_log_df = \<lparr>df_columns = op_log_columns, df_rows = events\<rparr>,
          proc_df = \<lparr>df_columns = proc_columns, df_rows = [proc_row]\<rparr>\<rparr>)"
proof -
  from test_data_rows_returns [OF assms(3)] obtain rows where
    "test_data_rows vs ts cs st = Inr rows" by blast
  moreover from op_log_jump_events [OF assms(2)] obtain events where
    "op_log evs = Inr events" by blast
  moreover note py_max_Max [OF assms(1)]
  ultimately show ?thesis
    by (simp add: generate_simulation_csv_def simulation_frames_def)
qed

lemma generate_empty_temps: "generate_simulation_csv vs [] cs st evs = Inl ValueError"
  by (simp add: generate_simulation_csv_def simulation_frames_def test_data_rows_def)

lemma generate_ValueError_iff:
  "generate_simulation_csv vs ts cs st evs = Inl ValueError \<longleftrightarrow> ts = []"
proof
  assume err: "generate_simulation_csv vs ts cs st evs = Inl ValueError"
  show "ts = []"
  proof (rule ccontr)
    assume "ts \<noteq> []"
    from py_max_Max [OF this] err show False
      by (auto simp: generate_simulation_csv_def simulation_frames_def
            split: sum.splits dest: test_data_rows_Inl op_log_Inl)
  qed
next
  assume "ts = []"
  then show "generate_simulation_csv vs ts cs st evs = Inl ValueError"
    by (simp add: generate_empty_temps)
qed

subsection \<open>Lines of text\<close>

lemma split_on_absent: "s \<notin> set xs \<Longrightarrow> split_on s xs = [xs]"
  by (induction xs) auto

lemma split_on_append: "s \<notin> set xs \<Longrightarrow> split_on s (xs @ s # ys) = xs # split_on s ys"
  by (induction xs) auto

lemma text_lines_record:
  "Ch newline \<notin> set l \<Longrightarrow> text_lines (l @ Ch newline # rest) = l # text_lines rest"
  by (simp add: text_lines_def split_on_append)

lemma text_lines_records:
  "\<forall>l\<in>set ls. Ch newline \<notin> set l \<Longrightarrow>
     text_lines (concat (map (\<lambda>l. l @ [Ch newline]) ls) @ rest) = ls @ text_lines rest"
  by (induction ls) (simp_all add: text_lines_record)

lemma join_comma_no_newline:
  "\<forall>f\<in>set fs. Ch newline \<notin> set f \<Longrightarrow> Ch newline \<notin> set (join_comma fs)"
  by (induction fs rule: join_comma.induct) (auto simp: newline_def)

lemma digit_char_not_newline: "d < 10 \<Longrightarrow> newline \<noteq> digit_char d"
proof -
  assume "d < 10"
  then have "d \<in> {0, 1, 2, 3, 4, 5, 6, 7, 8, 9}" by auto
  then show ?thesis
    by (auto simp: digit_char_def newline_def)
qed

lemma str_nat_no_newline: "newline \<notin> set (str_nat n)"
proof (induction n rule: str_nat.induct)
  case (1 n)
  show ?case
  proof (cases "n < 10")
    case True
    then show ?thesis by (subst str_nat.simps) (simp add: digit_char_not_newline)
  next
    case False
    with 1 have "newline \<notin> set (str_nat (n div 10))" by simp
    moreover have "newline \<noteq> digit_char (n mod 10)"
      by (rule digit_char_not_newline) simp
    ultimately show ?thesis using False by (subst str_nat.simps) simp
  qed
qed

lemma str_int_no_newline: "newline \<notin> set (str_int i)"
  by (simp add: str_int_def str_nat_no_newline) (simp add: newline_def)

lemma two_digits_no_newline: "n < 100 \<Longrightarrow> newline \<notin> set (two_digits n)"
  by (simp add: two_digits_def digit_char_not_newline)

lemma mmss_no_newline: "newline \<notin> set (mmss s)"
  by (simp add: mmss_def two_digits_no_newline str_nat_no_newline) (simp add: newline_def)

lemma hhmmss_no_newline: "newline \<notin> set (hhmmss s)"
  by (simp add: hhmmss_def two_digits_no_newline) (simp add: newline_def)

lemma quote_str_no_newline: "newline \<notin> set s \<Longrightarrow> newline \<notin> set (quote_str s)"
  by (auto simp: quote_str_def newline_def split: if_splits)

lemma csv_field_one_line: "one_line_cell c \<Longrightarrow> Ch newline \<notin> set (csv_field c)"
  by (cases c) (auto simp: lit_def str_int_no_newline quote_str_no_newline)

lemma record_line_one_line:
  "\<forall>c\<in>set row. one_line_cell c \<Longrightarrow> Ch newline \<notin> set (record_line row)"
  unfolding record_line_def
  by (rule join_comma_no_newline) (simp add: csv_field_one_line)

lemma name_one_line: "\<not> needs_quotes name \<Longrightarrow> Ch newline \<notin> set (lit name)"
  by (auto simp: needs_quotes_def lit_def newline_def list_ex_iff)

lemma to_csv_lines:
  assumes names: "\<forall>name\<in>set (df_columns df). \<not> needs_quotes name"
    and cells: "\<forall>row\<in>set (df_rows df). \<forall>c\<in>set row. one_line_cell c"
  shows "text_lines (to_csv df @ rest) =
           join_comma (map lit (df_columns df)) # map record_line (df_rows df) @ text_lines rest"
proof -
  from names have hdr: "map (\<lambda>name. lit (quote_str name)) (df_columns df) = map lit (df_columns df)"
    by (auto simp: quote_str_def)
  from names have head: "Ch newline \<notin> set (join_comma (map lit (df_columns df)))"
    by (intro join_comma_no_newline) (simp add: name_one_line)
  from cells have "\<forall>l\<in>set (map record_line (df_rows df)). Ch newline \<notin> set l"
    by (simp add: record_line_one_line)
  then have body: "text_lines (concat (map (\<lambda>l. l @ [Ch newline]) (map record_line (df_rows df))) @ rest) =
      map record_line (df_rows df) @ text_lines rest"
    by (rule text_lines_records)
  have eq: "to_csv df @ rest =
      join_comma (map lit (df_columns df)) @ Ch newline #
        (concat (map (\<lambda>l. l @ [Ch newline]) (map record_line (df_rows df))) @ rest)"
    by (simp add: to_csv_def csv_record_def hdr record_line_def comp_def)
  show ?thesis
    by (simp only: eq text_lines_record [OF head] body)
qed



lemma text_lines_Nil: "text_lines [] = [[]]"
  by (simp add: text_lines_def)

lemma columns_plain:
  "\<forall>name\<in>set test_columns. \<not> needs_quotes name"
  "\<forall>name\<in>set stats_columns. \<not> needs_quotes name"
  "\<forall>name\<in>set op_log_columns. \<not> needs_quotes name"
  "\<forall>name\<in>set proc_columns. \<not> needs_quotes name"
  by (simp_all add: test_columns_def stats_columns_def op_log_columns_def proc_columns_def
        needs_quotes_def)



subsection \<open>The fields of a row and the report of a call\<close>

lemma row_fields:
  assumes "test_data_rows vs ts cs st = Inr rows" and "i < length rows"
  shows "length (rows ! i) = 13"
    and "rows ! i ! 0 = CInt (int i + 1)"
    and "rows ! i ! 1 = CStr (mmss (2 * i))"
    and "rows ! i ! 2 = CStr []"
    and "rows ! i ! 3 = CStr (hhmmss (seconds_of_day st + 2 * i))"
    and "rows ! i ! 4 = CFloat (Finite (vs ! i))"
    and "rows ! i ! 5 = CFloat (Finite (cs ! i))"
    and "\<exists>q. fdiv (fmul (Finite (cs ! i)) (Finite 2)) (Finite 3600) = Inr q \<and>
           rows ! i ! 6 = CFloat (py_round q 6) \<and>
           rows ! i ! 7 = CFloat (py_round (fmul (py_round q 6) (Finite (vs ! i))) 6)"
    and "rows ! i ! 8 = CStr (if i < length vs div 2 then ''Constant Current'' else ''Rest'')"
    and "rows ! i ! 9 = CInt 1"
    and "rows ! i ! 10 = CInt (int i + 1)"
    and "rows ! i ! 11 = CInt 0"
    and "rows ! i ! 12 = CFloat (Finite (ts ! i))"
    and "\<forall>c\<in>set (rows ! i). one_line_cell c"
proof -
  from test_data_rows_cells(2) [OF assms] obtain q where
    q: "fdiv (fmul (Finite (cs ! i)) (Finite 2)) (Finite 3600) = Inr q"
    and row: "rows ! i =
          [CInt (int (i + 1)), CStr (mmss (i * 2)), CStr [],
           CStr (hhmmss (seconds_of_day st + i * 2)), CFloat (Finite (vs ! i)),
           CFloat (Finite (cs ! i)), CFloat (py_round q 6),
           CFloat (py_round (fmul (py_round q 6) (Finite (vs ! i))) 6),
           CStr (if i < length vs div 2 then ''Constant Current'' else ''Rest''), CInt 1,
           CInt (int (i + 1)), CInt 0, CFloat (Finite (ts ! i))]"
    by blast
  show "length (rows ! i) = 13" by (simp add: row)
  show "rows ! i ! 0 = CInt (int i + 1)" by (simp add: row)
  show "rows ! i ! 1 = CStr (mmss (2 * i))" by (simp add: row mult.commute)
  show "rows ! i ! 2 = CStr []" by (simp add: row)
  show "rows ! i ! 3 = CStr (hhmmss (seconds_of_day st + 2 * i))" by (simp add: row mult.commute)
  show "rows ! i ! 4 = CFloat (Finite (vs ! i))" by (simp add: row)
  show "rows ! i ! 5 = CFloat (Finite (cs ! i))" by (simp add: row)
  show "\<exists>q. fdiv (fmul (Finite (cs ! i)) (Finite 2)) (Finite 3600) = Inr q \<and>
           rows ! i ! 6 = CFloat (py_round q 6) \<and>
           rows ! i ! 7 = CFloat (py_round (fmul (py_round q 6) (Finite (vs ! i))) 6)"
    using q by (simp add: row)
  show "rows ! i ! 8 = CStr (if i < length vs div 2 then ''Constant Current'' else ''Rest'')"
    by (simp add: row)
  show "rows ! i ! 9 = CInt 1" by (simp add: row)
  show "rows ! i ! 10 = CInt (int i + 1)" by (simp add: row)
  show "rows ! i ! 11 = CInt 0" by (simp add: row)
  show "rows ! i ! 12 = CFloat (Finite (ts ! i))" by (simp add: row)
  show "\<forall>c\<in>set (rows ! i). one_line_cell c"
    by (simp add: row mmss_no_newline hhmmss_no_newline) (simp add: newline_def)
qed

lemma report_of_call:
  assumes "ts \<noteq> []" and "\<forall>e\<in>set evs. jump_event e"
    and "run_fits st (min (length vs) (min (length cs) (length ts)))"
  obtains r where
    "generate_simulation_csv vs ts cs st evs = Inr (write_report r)"
    "test_data_rows vs ts cs st = Inr (df_rows (test_df r))"
    "op_log evs = Inr (df_rows (op_log_df r))"
    "df_columns (test_df r) = test_columns"
    "df_columns (stats_df r) = stats_columns"
    "df_columns (op_log_df r) = op_log_columns"
    "df_columns (proc_df r) = proc_columns"
    "df_rows (stats_df r) = [stats_row (Max (set ts))]"
    "df_rows (proc_df r) = [proc_row]"
proof -
  from generate_returns [OF assms] obtain rows events where
    "test_data_rows vs ts cs st = Inr rows" "op_log evs = Inr events"
    "generate_simulation_csv vs ts cs st evs =
       Inr (write_report
         \<lparr>test_df = \<lparr>df_columns = test_columns, df_rows = rows\<rparr>,
          stats_df = \<lparr>df_columns = stats_columns, df_rows = [stats_row (Max (set ts))]\<rparr>,
          op_log_df = \<lparr>df_columns = op_log_columns, df_rows = events\<rparr>,
          proc_df = \<lparr>df_columns = proc_columns, df_rows = [proc_row]\<rparr>\<rparr>)"
    by blast
  then show thesis
    by (intro that [of "\<lparr>test_df = \<lparr>df_columns = test_columns, df_rows = rows\<rparr>,
          stats_df = \<lparr>df_columns = stats_columns, df_rows = [stats_row (Max (set ts))]\<rparr>,
          op_log_df = \<lparr>df_columns = op_log_columns, df_rows = events\<rparr>,
          proc_df = \<lparr>df_columns = proc_columns, df_rows = [proc_row]\<rparr>\<rparr>"]) simp_all
qed

lemma run_fitsI:
  assumes "valid_datetime st"
    and "dt_ordinal st + (seconds_of_day st + 2 * n) div 86400 \<le> MAXORDINAL"
  shows "run_fits st n"
proof -
  have "time_fits st i" if "i < n" for i
  proof -
    from that have le: "(seconds_of_day st + i * 2) div 86400 \<le> (seconds_of_day st + 2 * n) div 86400"
      by (intro div_le_mono) simp
    have "(i * 2) div 86400 \<le> (seconds_of_day st + i * 2) div 86400"
      by (intro div_le_mono) simp
    with le assms(2) have "(i * 2) div 86400 \<le> MAXORDINAL" by linarith
    moreover from assms(1) have "0 < dt_ordinal st" by (simp add: valid_datetime_def)
    ultimately show ?thesis using le assms(2)
      by (simp add: time_fits_def MAXORDINAL_def)
  qed
  then show ?thesis by (simp add: run_fits_def)
qed

lemma start0_fits: "n \<le> 100 \<Longrightarrow> run_fits start0 n"
proof (rule run_fitsI)
  show "valid_datetime start0"
    by (simp add: valid_datetime_def start0_def MAXORDINAL_def)
  assume "n \<le> 100"
  then have "(seconds_of_day start0 + 2 * n) div 86400 \<le> (86398 + 200) div 86400"
    by (intro div_le_mono) (simp add: seconds_of_day_def start0_def)
  then show "dt_ordinal start0 + (seconds_of_day start0 + 2 * n) div 86400 \<le> MAXORDINAL"
    by (simp add: start0_def MAXORDINAL_def)
qed

lemma jump0_event: "jump_event jump0" "one_line_event jump0"
  by (auto simp: jump_event_def one_line_event_def jump0_def newline_def)

text \<open>
  The model of binary64 on values that are known from Python: \<open>0.1\<close> is
  \<open>3602879701896397 / 2^55\<close>, \<open>0.1 * 3\<close> is \<open>0.30000000000000004\<close> and not \<open>0.3\<close>,
  \<open>2^53 + 1\<close> is not a float, \<open>round(2.675, 2)\<close> is \<open>2.67\<close> and \<open>round(0.0078125, 6)\<close>
  is \<open>0.007812\<close> (a tie).
\<close>

lemma binary64_examples:
  "float_lit 0.1 = Finite (3602879701896397 / 2 ^ 55)"
  "fmul (float_lit 0.1) (Finite 3) = float_lit 0.30000000000000004"
  "fmul (float_lit 0.1) (Finite 3) \<noteq> float_lit 0.3"
  "rnd64 (2 ^ 53 + 1) = Finite (2 ^ 53)"
  "py_round (float_lit 2.675) 2 = float_lit 2.67"
  "py_round (float_lit 0.0078125) 6 = float_lit 0.007812"
  by code_simp+



lemma jump_far_event: "jump_event jump_far"
  by (auto simp: jump_event_def jump_far_def)

lemma test_rows_one_line:
  assumes "test_data_rows vs ts cs st = Inr rows"
  shows "\<forall>row\<in>set rows. \<forall>c\<in>set row. one_line_cell c"
proof
  fix row
  assume "row \<in> set rows"
  then obtain i where "i < length rows" "rows ! i = row"
    by (auto simp: in_set_conv_nth)
  with row_fields(14) [OF assms, of i] show "\<forall>c\<in>set row. one_line_cell c" by simp
qed


section \<open>The claims\<close>

text \<open>
  In every statement below a call is given a non-empty temperature sequence, jump events
  of the data model, and a start time from which every row has a time stamp
  (\<open>run_fits\<close>); under these it returns, and \<open>r\<close> is the report whose text it returns.
\<close>

text \<open>
  C1. The Test Data table has exactly min(len(voltages), len(currents), len(temps)) data
  rows, in input order: row \<open>i\<close> holds sample id \<open>i + 1\<close> and the voltage, current and
  temperature at index \<open>i\<close>. With three sequences of equal length N it has N rows; with
  different lengths the call still returns, cut to the shortest. In the text the table
  is its header line followed by one line per row.
\<close>

theorem sample_table_row_count:
  assumes "temps \<noteq> []" and "\<forall>e\<in>set jump_events. jump_event e"
    and "run_fits start_time (min (length voltages) (min (length currents) (length temps)))"
  shows "\<exists>r rows.
      generate_simulation_csv voltages temps currents start_time jump_events =
        Inr (write_report r) \<and>
      df_rows (test_df r) = rows \<and>
      length rows = min (length voltages) (min (length currents) (length temps)) \<and>
      (\<forall>i<length rows.
         rows ! i ! 0 = CInt (int i + 1) \<and>
         rows ! i ! 4 = CFloat (Finite (voltages ! i)) \<and>
         rows ! i ! 5 = CFloat (Finite (currents ! i)) \<and>
         rows ! i ! 12 = CFloat (Finite (temps ! i))) \<and>
      (length voltages = length temps \<and> length currents = length temps \<longrightarrow>
         length rows = length temps) \<and>
      text_lines (to_csv (test_df r)) =
        join_comma (map lit test_columns) # map record_line rows @ [[]]"
proof -
  from report_of_call [OF assms] obtain r where
    r: "generate_simulation_csv voltages temps currents start_time jump_events =
          Inr (write_report r)"
    and rows: "test_data_rows voltages temps currents start_time = Inr (df_rows (test_df r))"
    and cols: "df_columns (test_df r) = test_columns"
    by blast
  note len = test_data_rows_cells(1) [OF rows]
  note f = row_fields [OF rows]
  from to_csv_lines [OF _ test_rows_one_line [OF rows], of "[]"] cols columns_plain(1)
  have "text_lines (to_csv (test_df r)) =
        join_comma (map lit test_columns) # map record_line (df_rows (test_df r)) @ [[]]"
    by (simp add: text_lines_Nil)
  with r len f(2,6,7,13) show ?thesis by auto
qed

theorem sample_table_row_count_witness:
  "\<exists>r. generate_simulation_csv [7 / 2, 4] [25, 40, 30] [3600, 1, 2] start0 [jump0] =
          Inr (write_report r) \<and>
        length (df_rows (test_df r)) = 2 \<and>
        df_rows (test_df r) ! 1 ! 4 = CFloat (Finite 4)"
proof -
  have "run_fits start0 (min (length [7 / 2, 4 :: rat]) (min (length [3600, 1, 2 :: rat])
          (length [25, 40, 30 :: rat])))"
    by (rule start0_fits) simp
  from sample_table_row_count [of "[25, 40, 30]" "[jump0]" start0 "[7 / 2, 4]" "[3600, 1, 2]", OF _ _ this]
  show ?thesis by (auto simp: jump0_event)
qed

text \<open>
  C2. With three sequences of equal length N, N at least 1, the step type of the row at
  index \<open>i\<close> is "Constant Current" when \<open>i < N div 2\<close> and "Rest" otherwise.
\<close>

theorem step_type_partition:
  assumes "length voltages = N" and "length currents = N" and "length temps = N"
    and "1 \<le> N" and "\<forall>e\<in>set jump_events. jump_event e" and "run_fits start_time N"
  shows "\<exists>r rows.
      generate_simulation_csv voltages temps currents start_time jump_events =
        Inr (write_report r) \<and>
      df_rows (test_df r) = rows \<and> length rows = N \<and>
      (\<forall>i<N. rows ! i ! 8 = CStr (if i < N div 2 then ''Constant Current'' else ''Rest''))"
proof -
  from assms have "temps \<noteq> []" by auto
  moreover from assms have
    "run_fits start_time (min (length voltages) (min (length currents) (length temps)))"
    by simp
  ultimately obtain r where
    r: "generate_simulation_csv voltages temps currents start_time jump_events =
          Inr (write_report r)"
    and rows: "test_data_rows voltages temps currents start_time = Inr (df_rows (test_df r))"
    using report_of_call [OF _ assms(5)] by blast
  from test_data_rows_cells(1) [OF rows] assms have len: "length (df_rows (test_df r)) = N"
    by simp
  with row_fields(9) [OF rows] assms(1) r show ?thesis by auto
qed

theorem step_type_partition_witness:
  "\<exists>r. generate_simulation_csv [7 / 2, 4, 3] [25, 40, 30] [3600, 1, 2] start0 [jump0] =
          Inr (write_report r) \<and>
        df_rows (test_df r) ! 0 ! 8 = CStr ''Constant Current'' \<and>
        df_rows (test_df r) ! 1 ! 8 = CStr ''Rest'' \<and>
        df_rows (test_df r) ! 2 ! 8 = CStr ''Rest''"
proof -
  have "run_fits start0 3" by (rule start0_fits) simp
  from step_type_partition [of "[7 / 2, 4, 3]" 3 "[3600, 1, 2]" "[25, 40, 30]" "[jump0]" start0,
      OF _ _ _ _ _ this]
  show ?thesis by (auto simp: jump0_event)
qed

text \<open>
  C3. The Cycle Statistics table has one row. Its Max Temp field is the maximum of the
  temperature sequence and every other field is a constant of the program. With an
  empty temperature sequence the call raises ValueError (\<open>max\<close> of an empty sequence).
\<close>

theorem cycle_statistics_max_temp:
  shows "(temps = [] \<longrightarrow>
           generate_simulation_csv voltages temps currents start_time jump_events =
             Inl ValueError) \<and>
         (temps \<noteq> [] \<and> (\<forall>e\<in>set jump_events. jump_event e) \<and>
          run_fits start_time (min (length voltages) (min (length currents) (length temps))) \<longrightarrow>
            (\<exists>r. generate_simulation_csv voltages temps currents start_time jump_events =
                    Inr (write_report r) \<and>
                  df_columns (stats_df r) ! 13 = ''Max Temp'' \<and>
                  df_rows (stats_df r) =
                    [[CInt 1, CFloat (float_lit 0.056245), CInt 0, CFloat (float_lit 0.056245),
                      CFloat (float_lit 0.042359), CStr ''00:40.0'', CStr ''00:00.0'',
                      CStr ''00:30.0'', CStr ''00:30.0'', CFloat (float_lit 75.31297),
                      CInt 100, CFloat (float_lit 3.207877), CFloat (float_lit 3.207877),
                      CFloat (Finite (Max (set temps))), CFloat (float_lit 15.6)]]))"
proof (intro conjI impI)
  assume "temps = []"
  then show "generate_simulation_csv voltages temps currents start_time jump_events =
      Inl ValueError"
    by (simp add: generate_empty_temps)
next
  assume "temps \<noteq> [] \<and> (\<forall>e\<in>set jump_events. jump_event e) \<and>
    run_fits start_time (min (length voltages) (min (length currents) (length temps)))"
  then have a: "temps \<noteq> []" "\<forall>e\<in>set jump_events. jump_event e"
    "run_fits start_time (min (length voltages) (min (length currents) (length temps)))"
    by simp_all
  from report_of_call [OF a] obtain r where
    "generate_simulation_csv voltages temps currents start_time jump_events =
       Inr (write_report r)"
    "df_columns (stats_df r) = stats_columns"
    "df_rows (stats_df r) = [stats_row (Max (set temps))]"
    by blast
  then show "\<exists>r. generate_simulation_csv voltages temps currents start_time jump_events =
                    Inr (write_report r) \<and>
                  df_columns (stats_df r) ! 13 = ''Max Temp'' \<and>
                  df_rows (stats_df r) =
                    [[CInt 1, CFloat (float_lit 0.056245), CInt 0, CFloat (float_lit 0.056245),
                      CFloat (float_lit 0.042359), CStr ''00:40.0'', CStr ''00:00.0'',
                      CStr ''00:30.0'', CStr ''00:30.0'', CFloat (float_lit 75.31297),
                      CInt 100, CFloat (float_lit 3.207877), CFloat (float_lit 3.207877),
                      CFloat (Finite (Max (set temps))), CFloat (float_lit 15.6)]]"
    by (auto simp: stats_row_def stats_columns_def)
qed

theorem cycle_statistics_max_temp_witness:
  "generate_simulation_csv [7 / 2, 4, 3] [] [3600, 1, 2] start0 [jump0] = Inl ValueError \<and>
   (\<exists>r. generate_simulation_csv [7 / 2, 4, 3] [25, 40, 30] [3600, 1, 2] start0 [jump0] =
          Inr (write_report r) \<and>
        length (df_rows (stats_df r)) = 1 \<and>
        df_rows (stats_df r) ! 0 ! 13 = CFloat (Finite 40))"
proof -
  have "run_fits start0 (min (length [7 / 2, 4, 3 :: rat]) (min (length [3600, 1, 2 :: rat])
          (length [25, 40, 30 :: rat])))"
    by (rule start0_fits) simp
  with cycle_statistics_max_temp [of "[25, 40, 30]" "[7 / 2, 4, 3]" "[3600, 1, 2]" start0 "[jump0]"]
    cycle_statistics_max_temp [of "[]" "[7 / 2, 4, 3]" "[3600, 1, 2]" start0 "[jump0]"]
  show ?thesis by (auto simp: jump0_event)
qed



text \<open>
  C5. In the row at index \<open>i\<close> the sample id is \<open>i + 1\<close>, the sampling offset is \<open>2 * i\<close>
  seconds as \<open>MM:SS\<close>, and the actual time is the time of day of the start time plus
  \<open>2 * i\<close> seconds as \<open>HH:MM:SS\<close>.
\<close>

theorem sample_id_and_times:
  assumes "temps \<noteq> []" and "\<forall>e\<in>set jump_events. jump_event e"
    and "run_fits start_time (min (length voltages) (min (length currents) (length temps)))"
  shows "\<exists>r rows.
      generate_simulation_csv voltages temps currents start_time jump_events =
        Inr (write_report r) \<and>
      df_rows (test_df r) = rows \<and>
      length rows = min (length voltages) (min (length currents) (length temps)) \<and>
      (\<forall>i<length rows.
         rows ! i ! 0 = CInt (int i + 1) \<and>
         rows ! i ! 1 = CStr (mmss (2 * i)) \<and>
         rows ! i ! 3 = CStr (hhmmss (seconds_of_day start_time + 2 * i)))"
proof -
  from report_of_call [OF assms] obtain r where
    r: "generate_simulation_csv voltages temps currents start_time jump_events =
          Inr (write_report r)"
    and rows: "test_data_rows voltages temps currents start_time = Inr (df_rows (test_df r))"
    by blast
  note len = test_data_rows_cells(1) [OF rows]
  note f = row_fields [OF rows]
  from r len f(2,3,5) show ?thesis by auto
qed

theorem sample_id_and_times_witness:
  "\<exists>r. generate_simulation_csv [7 / 2, 4, 3] [25, 40, 30] [3600, 1, 2] start0 [jump0] =
          Inr (write_report r) \<and>
        df_rows (test_df r) ! 0 ! 0 = CInt 1 \<and>
        df_rows (test_df r) ! 0 ! 1 = CStr ''00:00'' \<and>
        df_rows (test_df r) ! 0 ! 3 = CStr ''23:59:58'' \<and>
        df_rows (test_df r) ! 2 ! 0 = CInt 3 \<and>
        df_rows (test_df r) ! 2 ! 1 = CStr ''00:04'' \<and>
        df_rows (test_df r) ! 2 ! 3 = CStr ''00:00:02''"
proof -
  have fits: "run_fits start0 (min (length [7 / 2, 4, 3 :: rat]) (min (length [3600, 1, 2 :: rat])
          (length [25, 40, 30 :: rat])))"
    by (rule start0_fits) simp
  have ev: "\<forall>e\<in>set [jump0]. jump_event e" by (simp add: jump0_event)
  from sample_id_and_times
    [of "[25, 40, 30]" "[jump0]" start0 "[7 / 2, 4, 3]" "[3600, 1, 2]", OF _ ev fits]
  show ?thesis
    by (auto simp: mmss_def hhmmss_def two_digits_def digit_char_def seconds_of_day_def start0_def)
qed

text \<open>
  C6. The Operation Log table has the columns Timestamp, Sample ID and Event Type and
  one row per jump event, in input order, holding the event's time stamp, sample id and
  description. The sample id is any integer: it is not compared with the number of
  samples. The table is written as the record of its column names followed by the
  record of each row; with no jump event, as its header line alone.
\<close>

theorem operation_log_rows:
  assumes "temps \<noteq> []" and "\<forall>e\<in>set jump_events. jump_event e"
    and "run_fits start_time (min (length voltages) (min (length currents) (length temps)))"
  shows "\<exists>r rows.
      generate_simulation_csv voltages temps currents start_time jump_events =
        Inr (write_report r) \<and>
      df_columns (op_log_df r) = [''Timestamp'', ''Sample ID'', ''Event Type''] \<and>
      df_rows (op_log_df r) = rows \<and>
      length rows = length jump_events \<and>
      (\<forall>i<length jump_events.
         \<exists>ts sid ev.
           (jump_events ! i) ''timestamp'' = Some (CStr ts) \<and>
           (jump_events ! i) ''sample_id'' = Some (CInt sid) \<and>
           (jump_events ! i) ''event'' = Some (CStr ev) \<and>
           rows ! i = [CStr ts, CInt sid, CStr ev]) \<and>
      to_csv (op_log_df r) =
        csv_record (map lit [''Timestamp'', ''Sample ID'', ''Event Type'']) @
        concat (map (\<lambda>row. csv_record (map csv_field row)) rows) \<and>
      (jump_events = [] \<longrightarrow>
         to_csv (op_log_df r) = lit (''Timestamp,Sample ID,Event Type'' @ [newline]))"
proof -
  from report_of_call [OF assms] obtain r where
    r: "generate_simulation_csv voltages temps currents start_time jump_events =
          Inr (write_report r)"
    and log: "op_log jump_events = Inr (df_rows (op_log_df r))"
    and cols: "df_columns (op_log_df r) = op_log_columns"
    by blast
  from op_log_Inr [OF log] have len: "length (df_rows (op_log_df r)) = length jump_events"
    and cells: "\<forall>i<length jump_events. \<exists>ts sid ev.
        (jump_events ! i) ''timestamp'' = Some ts \<and> (jump_events ! i) ''sample_id'' = Some sid \<and>
        (jump_events ! i) ''event'' = Some ev \<and> df_rows (op_log_df r) ! i = [ts, sid, ev]"
    by simp_all
  have typed: "\<exists>ts sid ev.
           (jump_events ! i) ''timestamp'' = Some (CStr ts) \<and>
           (jump_events ! i) ''sample_id'' = Some (CInt sid) \<and>
           (jump_events ! i) ''event'' = Some (CStr ev) \<and>
           df_rows (op_log_df r) ! i = [CStr ts, CInt sid, CStr ev]"
    if "i < length jump_events" for i
  proof -
    from that assms(2) have "jump_event (jump_events ! i)" by simp
    with cells that show ?thesis by (fastforce simp: jump_event_def)
  qed
  have empty: "to_csv (op_log_df r) = lit (''Timestamp,Sample ID,Event Type'' @ [newline])"
    if "jump_events = []"
  proof -
    from that len have "df_rows (op_log_df r) = []" by simp
    with cols show ?thesis
      by (simp add: to_csv_def csv_record_def op_log_columns_def quote_str_def needs_quotes_def
            lit_def)
  qed
  have records: "to_csv (op_log_df r) =
        csv_record (map lit [''Timestamp'', ''Sample ID'', ''Event Type'']) @
        concat (map (\<lambda>row. csv_record (map csv_field row)) (df_rows (op_log_df r)))"
    by (simp add: to_csv_def cols op_log_columns_def quote_str_def needs_quotes_def)
  from r len typed empty cols records show ?thesis
    by (auto simp: op_log_columns_def)
qed

theorem operation_log_rows_witness:
  "(\<exists>r. generate_simulation_csv [7 / 2, 4] [25, 40] [3600, 1] start0 [jump0, jump_far] =
          Inr (write_report r) \<and>
        df_rows (op_log_df r) =
          [[CStr ''19:31.7'', CInt 3, CStr ''Step jumped due to time limit''],
           [CStr ''20:05.0'', CInt 500, CStr ''Step jumped due to voltage limit'']]) \<and>
   (\<exists>r. generate_simulation_csv [7 / 2, 4] [25, 40] [3600, 1] start0 [] =
          Inr (write_report r) \<and>
        to_csv (op_log_df r) = lit (''Timestamp,Sample ID,Event Type'' @ [newline]))"
proof -
  have fits: "run_fits start0 (min (length [7 / 2, 4 :: rat]) (min (length [3600, 1 :: rat])
          (length [25, 40 :: rat])))"
    by (rule start0_fits) simp
  have ev: "\<forall>e\<in>set [jump0, jump_far]. jump_event e" by (simp add: jump0_event jump_far_event)
  from operation_log_rows
    [of "[25, 40]" "[jump0, jump_far]" start0 "[7 / 2, 4]" "[3600, 1]", OF _ ev fits]
  obtain r where r: "generate_simulation_csv [7 / 2, 4] [25, 40] [3600, 1] start0 [jump0, jump_far] =
          Inr (write_report r)"
    and len: "length (df_rows (op_log_df r)) = 2"
    and cells: "\<forall>i<2. \<exists>ts sid ev.
           ([jump0, jump_far] ! i) ''timestamp'' = Some (CStr ts) \<and>
           ([jump0, jump_far] ! i) ''sample_id'' = Some (CInt sid) \<and>
           ([jump0, jump_far] ! i) ''event'' = Some (CStr ev) \<and>
           df_rows (op_log_df r) ! i = [CStr ts, CInt sid, CStr ev]"
    by auto
  from cells [rule_format, of 0] cells [rule_format, of 1]
  have "df_rows (op_log_df r) ! 0 = [CStr ''19:31.7'', CInt 3, CStr ''Step jumped due to time limit'']"
    "df_rows (op_log_df r) ! 1 = [CStr ''20:05.0'', CInt 500, CStr ''Step jumped due to voltage limit'']"
    by (auto simp: jump0_def jump_far_def)
  with len have "df_rows (op_log_df r) =
          [[CStr ''19:31.7'', CInt 3, CStr ''Step jumped due to time limit''],
           [CStr ''20:05.0'', CInt 500, CStr ''Step jumped due to voltage limit'']]"
    by (auto simp: list_eq_iff_nth_eq less_Suc_eq numeral_2_eq_2)
  with r have first: "\<exists>r. generate_simulation_csv [7 / 2, 4] [25, 40] [3600, 1] start0 [jump0, jump_far] =
          Inr (write_report r) \<and>
        df_rows (op_log_df r) =
          [[CStr ''19:31.7'', CInt 3, CStr ''Step jumped due to time limit''],
           [CStr ''20:05.0'', CInt 500, CStr ''Step jumped due to voltage limit'']]"
    by blast
  from operation_log_rows [of "[25, 40]" "[]" start0 "[7 / 2, 4]" "[3600, 1]", OF _ _ fits]
  have "\<exists>r. generate_simulation_csv [7 / 2, 4] [25, 40] [3600, 1] start0 [] =
          Inr (write_report r) \<and>
        to_csv (op_log_df r) = lit (''Timestamp,Sample ID,Event Type'' @ [newline])"
    by auto
  with first show ?thesis by blast
qed




text \<open>
  C9. The step type of the row at index \<open>i\<close> is "Constant Current" exactly when
  \<open>i < len(voltages) div 2\<close>, whatever the number of rows: when \<open>len(voltages)\<close> is at
  least twice the length of the shortest sequence, every row is "Constant Current".
\<close>

theorem step_type_boundary_from_voltages:
  assumes "temps \<noteq> []" and "\<forall>e\<in>set jump_events. jump_event e"
    and "run_fits start_time (min (length voltages) (min (length currents) (length temps)))"
  shows "\<exists>r rows.
      generate_simulation_csv voltages temps currents start_time jump_events =
        Inr (write_report r) \<and>
      df_rows (test_df r) = rows \<and>
      length rows = min (length voltages) (min (length currents) (length temps)) \<and>
      (\<forall>i<length rows.
         rows ! i ! 8 =
           CStr (if i < length voltages div 2 then ''Constant Current'' else ''Rest'')) \<and>
      (2 * min (length voltages) (min (length currents) (length temps)) \<le> length voltages \<longrightarrow>
         (\<forall>i<length rows. rows ! i ! 8 = CStr ''Constant Current''))"
proof -
  from report_of_call [OF assms] obtain r where
    r: "generate_simulation_csv voltages temps currents start_time jump_events =
          Inr (write_report r)"
    and rows: "test_data_rows voltages temps currents start_time = Inr (df_rows (test_df r))"
    by blast
  note len = test_data_rows_cells(1) [OF rows]
  note step = row_fields(9) [OF rows]
  have "df_rows (test_df r) ! i ! 8 = CStr ''Constant Current''"
    if "2 * min (length voltages) (min (length currents) (length temps)) \<le> length voltages"
      and "i < length (df_rows (test_df r))" for i
  proof -
    from that len have "i < length voltages div 2" by linarith
    with step [OF that(2)] show ?thesis by simp
  qed
  with r len step show ?thesis by auto
qed

theorem step_type_boundary_from_voltages_witness:
  "\<exists>r. generate_simulation_csv [7 / 2, 4, 3, 3] [25, 40] [3600, 1] start0 [jump0] =
          Inr (write_report r) \<and>
        length (df_rows (test_df r)) = 2 \<and>
        df_rows (test_df r) ! 0 ! 8 = CStr ''Constant Current'' \<and>
        df_rows (test_df r) ! 1 ! 8 = CStr ''Constant Current''"
proof -
  have "run_fits start0 (min (length [7 / 2, 4, 3, 3 :: rat]) (min (length [3600, 1 :: rat])
          (length [25, 40 :: rat])))"
    by (rule start0_fits) simp
  from step_type_boundary_from_voltages
    [of "[25, 40]" "[jump0]" start0 "[7 / 2, 4, 3, 3]" "[3600, 1]", OF _ _ this]
  show ?thesis by (auto simp: jump0_event)
qed

text \<open>
  C10. The call raises ValueError exactly when the temperature sequence is empty. With a
  non-empty temperature sequence and no voltages and no currents it returns a report
  with no Test Data row. Max Temp is the maximum of the whole temperature sequence, also
  of the temperatures beyond the number of rows.
\<close>

theorem empty_aggregate_iff:
  shows "(generate_simulation_csv voltages temps currents start_time jump_events =
            Inl ValueError \<longleftrightarrow> temps = []) \<and>
         (temps \<noteq> [] \<and> (\<forall>e\<in>set jump_events. jump_event e) \<longrightarrow>
            (\<exists>r. generate_simulation_csv [] temps [] start_time jump_events =
                    Inr (write_report r) \<and>
                  df_rows (test_df r) = [] \<and>
                  df_rows (stats_df r) ! 0 ! 13 = CFloat (Finite (Max (set temps))))) \<and>
         (temps \<noteq> [] \<and> (\<forall>e\<in>set jump_events. jump_event e) \<and>
          run_fits start_time (min (length voltages) (min (length currents) (length temps))) \<longrightarrow>
            (\<exists>r. generate_simulation_csv voltages temps currents start_time jump_events =
                    Inr (write_report r) \<and>
                  length (df_rows (test_df r)) =
                    min (length voltages) (min (length currents) (length temps)) \<and>
                  df_rows (stats_df r) ! 0 ! 13 = CFloat (Finite (Max (set temps)))))"
proof (intro conjI impI)
  show "generate_simulation_csv voltages temps currents start_time jump_events =
            Inl ValueError \<longleftrightarrow> temps = []"
    by (rule generate_ValueError_iff)
next
  assume "temps \<noteq> [] \<and> (\<forall>e\<in>set jump_events. jump_event e)"
  then have a: "temps \<noteq> []" "\<forall>e\<in>set jump_events. jump_event e" by simp_all
  have "run_fits start_time (min (length ([] :: rat list)) (min (length ([] :: rat list)) (length temps)))"
    by (simp add: run_fits_def)
  from report_of_call [OF a this] obtain r where
    r: "generate_simulation_csv [] temps [] start_time jump_events = Inr (write_report r)"
    and rows: "test_data_rows [] temps [] start_time = Inr (df_rows (test_df r))"
    and stats: "df_rows (stats_df r) = [stats_row (Max (set temps))]"
    by blast
  from test_data_rows_cells(1) [OF rows] have "df_rows (test_df r) = []" by simp
  with r stats show "\<exists>r. generate_simulation_csv [] temps [] start_time jump_events =
                    Inr (write_report r) \<and>
                  df_rows (test_df r) = [] \<and>
                  df_rows (stats_df r) ! 0 ! 13 = CFloat (Finite (Max (set temps)))"
    by (auto simp: stats_row_def)
next
  assume "temps \<noteq> [] \<and> (\<forall>e\<in>set jump_events. jump_event e) \<and>
    run_fits start_time (min (length voltages) (min (length currents) (length temps)))"
  then have a: "temps \<noteq> []" "\<forall>e\<in>set jump_events. jump_event e"
    "run_fits start_time (min (length voltages) (min (length currents) (length temps)))"
    by simp_all
  from report_of_call [OF a] obtain r where
    r: "generate_simulation_csv voltages temps currents start_time jump_events =
          Inr (write_report r)"
    and rows: "test_data_rows voltages temps currents start_time = Inr (df_rows (test_df r))"
    and stats: "df_rows (stats_df r) = [stats_row (Max (set temps))]"
    by blast
  from r test_data_rows_cells(1) [OF rows] stats
  show "\<exists>r. generate_simulation_csv voltages temps currents start_time jump_events =
                    Inr (write_report r) \<and>
                  length (df_rows (test_df r)) =
                    min (length voltages) (min (length currents) (length temps)) \<and>
                  df_rows (stats_df r) ! 0 ! 13 = CFloat (Finite (Max (set temps)))"
    by (auto simp: stats_row_def)
qed

theorem empty_aggregate_iff_witness:
  "generate_simulation_csv [7 / 2] [] [3600] start0 [jump0] = Inl ValueError \<and>
   generate_simulation_csv [7 / 2] [25, 40, 30] [3600] start0 [jump0] \<noteq> Inl ValueError \<and>
   (\<exists>r. generate_simulation_csv [] [25, 40, 30] [] start0 [jump0] = Inr (write_report r) \<and>
        df_rows (test_df r) = [] \<and>
        df_rows (stats_df r) ! 0 ! 13 = CFloat (Finite 40)) \<and>
   (\<exists>r. generate_simulation_csv [7 / 2] [25, 40, 30] [3600] start0 [jump0] = Inr (write_report r) \<and>
        length (df_rows (test_df r)) = 1 \<and>
        df_rows (stats_df r) ! 0 ! 13 = CFloat (Finite 40))"
proof -
  have fits: "run_fits start0 (min (length [7 / 2 :: rat]) (min (length [3600 :: rat])
          (length [25, 40, 30 :: rat])))"
    by (rule start0_fits) simp
  from fits empty_aggregate_iff [of "[7 / 2]" "[25, 40, 30]" "[3600]" start0 "[jump0]"]
    empty_aggregate_iff [of "[7 / 2]" "[]" "[3600]" start0 "[jump0]"]
  show ?thesis by (auto simp: jump0_event)
qed

end
